theory Spec2Isabelle
  imports Main "HOL-Library.Sublist"
begin

section \<open>Strings\<close>

text \<open>
  JavaScript strings are modelled as \<open>string\<close>. The string methods that
  \<^verbatim>\<open>background.js\<close> calls are written out: \<^verbatim>\<open>split\<close>, \<^verbatim>\<open>slice(-2)\<close>,
  \<^verbatim>\<open>join\<close>, \<^verbatim>\<open>endsWith\<close> and \<^verbatim>\<open>toLowerCase\<close>.
\<close>

text \<open>\<^verbatim>\<open>s.split(c)\<close> for a one-character separator: never empty, \<^verbatim>\<open>"".split(".")\<close> is \<^verbatim>\<open>[""]\<close>.\<close>

fun str_split :: "char \<Rightarrow> string \<Rightarrow> string list" where
  "str_split c [] = [[]]"
| "str_split c (x # xs) =
     (if x = c then [] # str_split c xs
      else (case str_split c xs of [] \<Rightarrow> [[x]] | p # ps \<Rightarrow> (x # p) # ps))"

text \<open>\<^verbatim>\<open>parts.join(sep)\<close>.\<close>

fun str_join :: "string \<Rightarrow> string list \<Rightarrow> string" where
  "str_join sep [] = []"
| "str_join sep [p] = p"
| "str_join sep (p # q # ps) = p @ sep @ str_join sep (q # ps)"

text \<open>\<^verbatim>\<open>parts.slice(-2)\<close>: the last two elements, or the whole array when it is shorter.\<close>

definition slice_last2 :: "'a list \<Rightarrow> 'a list" where
  "slice_last2 xs = drop (length xs - 2) xs"

text \<open>\<^verbatim>\<open>s.endsWith(searchString)\<close>.\<close>

definition endsWith :: "string \<Rightarrow> string \<Rightarrow> bool" where
  "endsWith s searchString \<longleftrightarrow>
     length searchString \<le> length s \<and>
     drop (length s - length searchString) s = searchString"

text \<open>
  \<^verbatim>\<open>s.toLowerCase()\<close> on the letters A to Z; every other character is kept. Names in
  DNS answers are ASCII, and no property below depends on which characters are changed.
\<close>

definition toLowerCase_char :: "char \<Rightarrow> char" where
  "toLowerCase_char c =
     (case c of Char b0 b1 b2 b3 b4 b5 b6 b7 \<Rightarrow>
        if (65::nat) \<le> of_char c \<and> of_char c \<le> (90::nat)
        then Char b0 b1 b2 b3 b4 True b6 b7 else c)"

definition toLowerCase :: "string \<Rightarrow> string" where
  "toLowerCase s = map toLowerCase_char s"

section \<open>Root domains\<close>

text \<open>\<^verbatim>\<open>getRootDomain\<close> (background.js, lines 72 to 81).\<close>

definition getRootDomain :: "string \<Rightarrow> string" where
  "getRootDomain domain =
     (let parts = str_split CHR ''.'' domain in
      if length parts \<le> 2 then domain
      else str_join ''.'' (slice_last2 parts))"

section \<open>The DNS-over-HTTPS response\<close>

text \<open>
  The body that \<^verbatim>\<open>response.json()\<close> yields is any JSON value. Numbers are integers
  here: a fractional number behaves in every test of the code like an integer other
  than 0, 2 and 6. A \<open>JObj\<close> lists the own properties of the parsed object.
\<close>

datatype json =
    JNull
  | JBool bool
  | JNum int
  | JStr string
  | JArr "json list"
  | JObj "(string \<times> json) list"

text \<open>What the \<^verbatim>\<open>try\<close> block of \<^verbatim>\<open>getDnsServers\<close> can throw.\<close>

datatype js_error =
    NetworkError
  | HttpError nat
  | SyntaxError
  | TypeError

definition bindE :: "'e + 'a \<Rightarrow> ('a \<Rightarrow> 'e + 'b) \<Rightarrow> 'e + 'b" where
  "bindE m f = (case m of Inl e \<Rightarrow> Inl e | Inr x \<Rightarrow> f x)"

text \<open>
  Property access \<^verbatim>\<open>v.k\<close> for the names the code reads (\<^verbatim>\<open>Status\<close>, \<^verbatim>\<open>Answer\<close>,
  \<^verbatim>\<open>Authority\<close>, \<^verbatim>\<open>type\<close>, \<^verbatim>\<open>data\<close>, \<^verbatim>\<open>name\<close>): a TypeError on \<^verbatim>\<open>null\<close>,
  \<^verbatim>\<open>undefined\<close> (\<open>None\<close>) on a value without that property.
\<close>

fun get_prop :: "json \<Rightarrow> string \<Rightarrow> js_error + json option" where
  "get_prop JNull k = Inl TypeError"
| "get_prop (JObj kvs) k = Inr (map_of kvs k)"
| "get_prop v k = Inr None"

text \<open>JavaScript truthiness of a JSON value; \<^verbatim>\<open>undefined\<close> is falsy.\<close>

fun truthy :: "json option \<Rightarrow> bool" where
  "truthy None = False"
| "truthy (Some JNull) = False"
| "truthy (Some (JBool b)) = b"
| "truthy (Some (JNum n)) = (n \<noteq> 0)"
| "truthy (Some (JStr s)) = (s \<noteq> [])"
| "truthy (Some (JArr xs)) = True"
| "truthy (Some (JObj kvs)) = True"

text \<open>
  Calling an array method (\<^verbatim>\<open>filter\<close>, \<^verbatim>\<open>find\<close>) on a truthy value: only an array
  has it, on anything else the call throws a TypeError.
\<close>

fun array_of :: "json option \<Rightarrow> js_error + json list" where
  "array_of (Some (JArr xs)) = Inr xs"
| "array_of v = Inl TypeError"

text \<open>\<^verbatim>\<open>filter\<close>, \<^verbatim>\<open>map\<close> and \<^verbatim>\<open>find\<close> with a callback that may throw.\<close>

fun filterE :: "('a \<Rightarrow> 'e + bool) \<Rightarrow> 'a list \<Rightarrow> 'e + 'a list" where
  "filterE p [] = Inr []"
| "filterE p (x # xs) =
     bindE (p x) (\<lambda>keep. bindE (filterE p xs) (\<lambda>ys. Inr (if keep then x # ys else ys)))"

fun mapE :: "('a \<Rightarrow> 'e + 'b) \<Rightarrow> 'a list \<Rightarrow> 'e + 'b list" where
  "mapE f [] = Inr []"
| "mapE f (x # xs) = bindE (f x) (\<lambda>y. bindE (mapE f xs) (\<lambda>ys. Inr (y # ys)))"

fun findE :: "('a \<Rightarrow> 'e + bool) \<Rightarrow> 'a list \<Rightarrow> 'e + 'a option" where
  "findE p [] = Inr None"
| "findE p (x # xs) = bindE (p x) (\<lambda>found. if found then Inr (Some x) else findE p xs)"

text \<open>\<^verbatim>\<open>record.type === t\<close>.\<close>

definition has_type :: "int \<Rightarrow> json \<Rightarrow> js_error + bool" where
  "has_type t r = bindE (get_prop r ''type'') (\<lambda>v. Inr (v = Some (JNum t)))"

text \<open>
  \<^verbatim>\<open>record.k.toLowerCase()\<close>: only a string has the method; on \<^verbatim>\<open>undefined\<close>,
  \<^verbatim>\<open>null\<close> or any other value the call throws.
\<close>

definition lower_prop :: "string \<Rightarrow> json \<Rightarrow> js_error + string" where
  "lower_prop k r =
     bindE (get_prop r k)
       (\<lambda>v. case v of Some (JStr s) \<Rightarrow> Inr (toLowerCase s) | _ \<Rightarrow> Inl TypeError)"

text \<open>
  \<^verbatim>\<open>section.filter(record => record.type === 2).map(record => record.data.toLowerCase())\<close>
\<close>

definition ns_records :: "json list \<Rightarrow> js_error + string list" where
  "ns_records section = bindE (filterE (has_type 2) section) (mapE (lower_prop ''data''))"

text \<open>The value \<^verbatim>\<open>{ servers, authority }\<close>; \<open>None\<close> is \<^verbatim>\<open>null\<close>.\<close>

record ns_result =
  servers :: "string list"
  authority :: "string option"

definition empty_result :: ns_result where
  "empty_result = \<lparr>servers = [], authority = None\<rparr>"

text \<open>
  What \<^verbatim>\<open>await fetch(url)\<close> and \<^verbatim>\<open>await response.json()\<close> give: the fetch is
  rejected, or there is a response with a status and a body, \<open>None\<close> when the body is
  not JSON. \<^verbatim>\<open>response.ok\<close> is true for the statuses 200 to 299.
\<close>

datatype fetch_outcome =
    Rejected
  | Response nat "json option"

definition ok :: "nat \<Rightarrow> bool" where
  "ok status \<longleftrightarrow> 200 \<le> status \<and> status \<le> 299"

text \<open>Lines 28 to 36: the NS records of the Answer section, none when it is falsy.\<close>

definition answer_servers :: "json \<Rightarrow> js_error + string list" where
  "answer_servers data =
     bindE (get_prop data ''Answer'')
       (\<lambda>answer. if truthy answer then bindE (array_of answer) ns_records else Inr [])"

text \<open>
  Lines 39 to 64: the Authority section. \<^verbatim>\<open>if (authority)\<close> is a truthiness test, so
  the empty string counts like \<^verbatim>\<open>null\<close> there.
\<close>

definition authority_result :: "json \<Rightarrow> js_error + ns_result" where
  "authority_result data =
     bindE (get_prop data ''Authority'')
       (\<lambda>section.
          if truthy section then
            bindE (array_of section) (\<lambda>records.
            bindE (findE (has_type 6) records) (\<lambda>soaRecord.
            bindE (case soaRecord of
                     None \<Rightarrow> Inr None
                   | Some r \<Rightarrow> bindE (lower_prop ''name'' r) (\<lambda>n. Inr (Some n))) (\<lambda>auth.
            bindE (ns_records records) (\<lambda>srv.
              if srv \<noteq> [] then Inr \<lparr>servers = srv, authority = auth\<rparr>
              else if auth \<noteq> None \<and> auth \<noteq> Some []
                then Inr \<lparr>servers = [], authority = auth\<rparr>
              else Inr empty_result))))
          else Inr empty_result)"

text \<open>The body of the \<^verbatim>\<open>try\<close> block (lines 14 to 64), \<open>Inl\<close> where it throws.\<close>

definition getDnsServers_try :: "fetch_outcome \<Rightarrow> js_error + ns_result" where
  "getDnsServers_try outcome =
     (case outcome of
        Rejected \<Rightarrow> Inl NetworkError
      | Response status body \<Rightarrow>
          if \<not> ok status then Inl (HttpError status)
          else (case body of
                  None \<Rightarrow> Inl SyntaxError
                | Some data \<Rightarrow>
                    bindE (get_prop data ''Status'') (\<lambda>status_field.
                      if status_field \<noteq> Some (JNum 0) then Inr empty_result
                      else
                        bindE (answer_servers data) (\<lambda>srv.
                          if srv \<noteq> [] then Inr \<lparr>servers = srv, authority = None\<rparr>
                          else authority_result data))))"

text \<open>The \<^verbatim>\<open>catch\<close> (lines 65 to 69) turns every error into the empty result.\<close>

definition getDnsServers_result :: "fetch_outcome \<Rightarrow> ns_result" where
  "getDnsServers_result outcome =
     (case getDnsServers_try outcome of Inl e \<Rightarrow> empty_result | Inr r \<Rightarrow> r)"

section \<open>The global state\<close>

text \<open>
  The module-level variables \<^verbatim>\<open>dnsCache\<close>, \<^verbatim>\<open>activeRootDomains\<close> and
  \<^verbatim>\<open>blockingDecisions\<close>. The field \<open>fetches\<close> is not a variable of the program: it
  records, in order, the URL of every \<^verbatim>\<open>fetch\<close> the program has issued, so that
  network calls can be counted.
\<close>

record cache_entry =
  shouldBlock :: bool
  timestamp :: int

record state =
  dnsCache :: "string \<rightharpoonup> cache_entry"
  activeRootDomains :: "string set"
  blockingDecisions :: "string \<rightharpoonup> bool"
  fetches :: "string list"

definition initial_state :: state where
  "initial_state =
     \<lparr>dnsCache = Map.empty, activeRootDomains = {}, blockingDecisions = Map.empty,
      fetches = []\<rparr>"

definition cacheTTL :: int where
  "cacheTTL = 5 * 60 * 1000"

section \<open>Looking up name servers\<close>

definition dns_url :: "string \<Rightarrow> string" where
  "dns_url domain = ''https://dns.google/resolve?name='' @ domain @ ''&type=NS''"

text \<open>Line 14: the call \<^verbatim>\<open>fetch(url)\<close> goes out.\<close>

definition issue_fetch :: "state \<Rightarrow> string \<Rightarrow> state" where
  "issue_fetch st domain = st\<lparr>fetches := fetches st @ [dns_url domain]\<rparr>"

text \<open>
  \<^verbatim>\<open>getDnsServers\<close> (lines 8 to 70), awaited at once: \<open>outcome\<close> is what the network
  gives to its request.
\<close>

definition getDnsServers :: "fetch_outcome \<Rightarrow> state \<Rightarrow> string \<Rightarrow> ns_result \<times> state" where
  "getDnsServers outcome st domain = (getDnsServers_result outcome, issue_fetch st domain)"

section \<open>The blocking decision\<close>

text \<open>
  Lines 87 to 91: the verdict of an entry of \<^verbatim>\<open>dnsCache\<close> that is younger than the
  TTL, where \<open>now\<close> is the value of \<^verbatim>\<open>Date.now()\<close>.
\<close>

definition cached_verdict :: "state \<Rightarrow> int \<Rightarrow> string \<Rightarrow> bool option" where
  "cached_verdict st now domain =
     (case dnsCache st domain of
        None \<Rightarrow> None
      | Some cachedResult \<Rightarrow>
          if now - timestamp cachedResult < cacheTTL then Some (shouldBlock cachedResult)
          else None)"

text \<open>
  Lines 115 to 117. \<^verbatim>\<open>domainResult.authority && ...\<close> is a truthiness test: neither
  \<^verbatim>\<open>null\<close> nor the empty string passes it.
\<close>

definition foreign_zone :: "string option \<Rightarrow> string \<Rightarrow> bool" where
  "foreign_zone auth rootDomain =
     (case auth of
        None \<Rightarrow> False
      | Some a \<Rightarrow> a \<noteq> [] \<and> a \<noteq> rootDomain \<and> \<not> endsWith a (''.'' @ rootDomain))"

text \<open>
  Lines 107 to 146: the comparison of the two lookups. \<open>now\<close> is \<^verbatim>\<open>Date.now()\<close> of
  line 144. Only the last branch writes \<^verbatim>\<open>dnsCache\<close>.
\<close>

definition compare_results ::
  "int \<Rightarrow> state \<Rightarrow> string \<Rightarrow> string \<Rightarrow> ns_result \<Rightarrow> ns_result \<Rightarrow> bool \<times> state" where
  "compare_results now st domain rootDomain domainResult rootResult =
     (if servers rootResult = [] then (False, st)
      else if foreign_zone (authority domainResult) rootDomain then (True, st)
      else if servers domainResult \<noteq> [] then
        (let hasCommonNameserver =
               list_ex (\<lambda>ns. ns \<in> set (servers rootResult)) (servers domainResult)
         in if \<not> hasCommonNameserver then (True, st) else (False, st))
      else
        (True,
         st\<lparr>dnsCache := (dnsCache st)(domain \<mapsto> \<lparr>shouldBlock = True, timestamp = now\<rparr>)\<rparr>))"

text \<open>
  \<^verbatim>\<open>shouldBlockDomain\<close> (lines 83 to 147) run without interruption. \<open>now0\<close> and
  \<open>now1\<close> are the values of \<^verbatim>\<open>Date.now()\<close> at lines 88 and 144, \<open>out_domain\<close> and
  \<open>out_root\<close> what the network gives to the two requests of lines 99 and 100.
\<close>

definition shouldBlockDomain ::
  "int \<Rightarrow> int \<Rightarrow> fetch_outcome \<Rightarrow> fetch_outcome \<Rightarrow> state \<Rightarrow> string \<Rightarrow> bool \<times> state" where
  "shouldBlockDomain now0 now1 out_domain out_root st domain =
     (case cached_verdict st now0 domain of
        Some verdict \<Rightarrow> (verdict, st)
      | None \<Rightarrow>
          (let rootDomain = getRootDomain domain in
           if domain = rootDomain then (False, st)
           else
             (let (domainResult, st1) = getDnsServers out_domain st domain;
                  (rootResult, st2) = getDnsServers out_root st1 rootDomain
              in compare_results now1 st2 domain rootDomain domainResult rootResult)))"

section \<open>The request listener\<close>

text \<open>
  \<^verbatim>\<open>extractDomain\<close> (lines 149 to 158). The URL parser of the platform is the
  parameter \<open>hostname_of\<close>: \<open>None\<close> where \<^verbatim>\<open>new URL(url)\<close> throws, which the
  \<^verbatim>\<open>catch\<close> turns into \<^verbatim>\<open>null\<close>.
\<close>

definition extractDomain :: "(string \<Rightarrow> string option) \<Rightarrow> string \<Rightarrow> string option" where
  "extractDomain hostname_of url =
     (case hostname_of url of None \<Rightarrow> None | Some hostname \<Rightarrow> Some hostname)"

text \<open>
  \<^verbatim>\<open>shouldBlockDomain\<close> is an \<^verbatim>\<open>async\<close> function: it runs until an \<^verbatim>\<open>await\<close>,
  and other listeners run before it goes on. A call in progress is at one of three
  places: waiting for the lookup of the domain (line 99), waiting for the lookup of
  the root (line 100), or returned, with its caller (line 252) still to go on.
\<close>

datatype suspended =
    AwaitDomain string string
  | AwaitRoot string string ns_result
  | Returned string bool

text \<open>Lines 84 to 99, up to the first \<^verbatim>\<open>await\<close>; the request for the domain is out.\<close>

definition shouldBlockDomain_start :: "int \<Rightarrow> state \<Rightarrow> string \<Rightarrow> suspended \<times> state" where
  "shouldBlockDomain_start now st domain =
     (case cached_verdict st now domain of
        Some verdict \<Rightarrow> (Returned domain verdict, st)
      | None \<Rightarrow>
          (let rootDomain = getRootDomain domain in
           if domain = rootDomain then (Returned domain False, st)
           else (AwaitDomain domain rootDomain, issue_fetch st domain)))"

text \<open>
  What the listener of \<^verbatim>\<open>onBeforeRequest\<close> returns: \<^verbatim>\<open>{ cancel: b }\<close>, or a promise
  whose evaluation has started.
\<close>

datatype reply =
    Cancel bool
  | Promise suspended

text \<open>
  The listener (lines 210 to 270), up to its \<^verbatim>\<open>return\<close>. \<^verbatim>\<open>!domain\<close> holds for
  \<^verbatim>\<open>null\<close> and for the empty host name.
\<close>

definition onBeforeRequest ::
  "(string \<Rightarrow> string option) \<Rightarrow> int \<Rightarrow> state \<Rightarrow> string \<Rightarrow> reply \<times> state" where
  "onBeforeRequest hostname_of now st url =
     (case extractDomain hostname_of url of
        None \<Rightarrow> (Cancel False, st)
      | Some domain \<Rightarrow>
          if domain = [] then (Cancel False, st)
          else if domain = ''dns.google'' then (Cancel False, st)
          else
            (let requestRootDomain = getRootDomain domain in
             if requestRootDomain \<notin> activeRootDomains st then (Cancel False, st)
             else if domain = requestRootDomain then (Cancel False, st)
             else
               (case blockingDecisions st domain of
                  Some cachedDecision \<Rightarrow> (Cancel cachedDecision, st)
                | None \<Rightarrow>
                    (let (s, st') = shouldBlockDomain_start now st domain
                     in (Promise s, st')))))"

text \<open>
  A suspended evaluation goes on. At \<open>AwaitDomain\<close> the answer for the domain has
  come and the request for the root goes out; at \<open>AwaitRoot\<close> the answer for the
  root has come and lines 102 to 146 run; at \<open>Returned\<close> lines 253 to 263 store the
  decision and resolve the promise (\<open>outcome\<close> is not read there).
\<close>

fun resume :: "int \<Rightarrow> fetch_outcome \<Rightarrow> state \<Rightarrow> suspended \<Rightarrow> reply \<times> state" where
  "resume now outcome st (AwaitDomain domain rootDomain) =
     (Promise (AwaitRoot domain rootDomain (getDnsServers_result outcome)),
      issue_fetch st rootDomain)"
| "resume now outcome st (AwaitRoot domain rootDomain domainResult) =
     (let (verdict, st') =
            compare_results now st domain rootDomain domainResult (getDnsServers_result outcome)
      in (Promise (Returned domain verdict), st'))"
| "resume now outcome st (Returned domain verdict) =
     (Cancel verdict, st\<lparr>blockingDecisions := (blockingDecisions st)(domain \<mapsto> verdict)\<rparr>)"

text \<open>
  The listeners of \<^verbatim>\<open>chrome.tabs\<close> (lines 161 to 203). \<open>tab_url\<close> is
  \<^verbatim>\<open>changeInfo.url\<close>, \<open>tab_urls\<close> the \<^verbatim>\<open>url\<close> fields of the tabs that the query
  returns, \<open>None\<close> where the field is missing.
\<close>

definition tab_root :: "(string \<Rightarrow> string option) \<Rightarrow> string option \<Rightarrow> string option" where
  "tab_root hostname_of tab_url =
     (case tab_url of
        None \<Rightarrow> None
      | Some url \<Rightarrow>
          if url = [] then None
          else (case extractDomain hostname_of url of
                  None \<Rightarrow> None
                | Some domain \<Rightarrow> if domain = [] then None else Some (getRootDomain domain)))"

definition tabs_onUpdated :: "(string \<Rightarrow> string option) \<Rightarrow> state \<Rightarrow> string option \<Rightarrow> state" where
  "tabs_onUpdated hostname_of st tab_url =
     (case tab_root hostname_of tab_url of
        None \<Rightarrow> st
      | Some rootDomain \<Rightarrow> st\<lparr>activeRootDomains := insert rootDomain (activeRootDomains st)\<rparr>)"

definition tab_roots :: "(string \<Rightarrow> string option) \<Rightarrow> string option list \<Rightarrow> string set" where
  "tab_roots hostname_of tab_urls = set (List.map_filter (tab_root hostname_of) tab_urls)"

definition tabs_onRemoved ::
  "(string \<Rightarrow> string option) \<Rightarrow> state \<Rightarrow> string option list \<Rightarrow> state" where
  "tabs_onRemoved hostname_of st tab_urls =
     st\<lparr>activeRootDomains := tab_roots hostname_of tab_urls\<rparr>"

definition tabs_initialize ::
  "(string \<Rightarrow> string option) \<Rightarrow> state \<Rightarrow> string option list \<Rightarrow> state" where
  "tabs_initialize hostname_of st tab_urls =
     st\<lparr>activeRootDomains := activeRootDomains st \<union> tab_roots hostname_of tab_urls\<rparr>"

section \<open>The running extension\<close>

text \<open>
  A configuration is the global state with the evaluations that are suspended.
  JavaScript runs each piece of code between two \<^verbatim>\<open>await\<close>s to its end before the
  next one starts, so a step of the extension is one listener call or one
  resumption, in any order.
\<close>

type_synonym config = "state \<times> suspended list"

inductive step :: "(string \<Rightarrow> string option) \<Rightarrow> config \<Rightarrow> config \<Rightarrow> bool"
  for hostname_of :: "string \<Rightarrow> string option" where
  request_now:
    "onBeforeRequest hostname_of now st url = (Cancel b, st') \<Longrightarrow>
     step hostname_of (st, ps) (st', ps)"
| request_later:
    "onBeforeRequest hostname_of now st url = (Promise s, st') \<Longrightarrow>
     step hostname_of (st, ps) (st', ps @ [s])"
| resume_on:
    "i < length ps \<Longrightarrow> resume now outcome st (ps ! i) = (Promise s, st') \<Longrightarrow>
     step hostname_of (st, ps) (st', ps[i := s])"
| resume_end:
    "i < length ps \<Longrightarrow> resume now outcome st (ps ! i) = (Cancel b, st') \<Longrightarrow>
     step hostname_of (st, ps) (st', take i ps @ drop (Suc i) ps)"
| tab_updated:
    "step hostname_of (st, ps) (tabs_onUpdated hostname_of st tab_url, ps)"
| tab_removed:
    "step hostname_of (st, ps) (tabs_onRemoved hostname_of st tab_urls, ps)"
| tabs_listed:
    "step hostname_of (st, ps) (tabs_initialize hostname_of st tab_urls, ps)"

inductive reachable :: "(string \<Rightarrow> string option) \<Rightarrow> config \<Rightarrow> bool"
  for hostname_of :: "string \<Rightarrow> string option" where
  start: "reachable hostname_of (initial_state, [])"
| after: "reachable hostname_of c \<Longrightarrow> step hostname_of c c' \<Longrightarrow> reachable hostname_of c'"

text \<open>
  A listener call that is awaited to its end before anything else runs: the reply of
  the listener, resumed with the two answers of the network until the promise
  resolves. \<open>now0\<close> and \<open>now1\<close> are as in \<open>shouldBlockDomain\<close>.
\<close>

fun steps_left :: "reply \<Rightarrow> nat" where
  "steps_left (Cancel b) = 0"
| "steps_left (Promise (Returned domain verdict)) = 1"
| "steps_left (Promise (AwaitRoot domain rootDomain domainResult)) = 2"
| "steps_left (Promise (AwaitDomain domain rootDomain)) = 3"

function settle ::
  "int \<Rightarrow> fetch_outcome \<Rightarrow> fetch_outcome \<Rightarrow> reply \<times> state \<Rightarrow> bool \<times> state" where
  "settle now1 out_domain out_root (Cancel b, st) = (b, st)"
| "settle now1 out_domain out_root (Promise s, st) =
     settle now1 out_domain out_root
       (resume now1 (case s of AwaitDomain d r \<Rightarrow> out_domain | _ \<Rightarrow> out_root) st s)"
  by pat_completeness auto
termination
  by (relation "measure (\<lambda>(now1, out_domain, out_root, r, st). steps_left r)")
     (auto split: suspended.splits prod.splits)

text \<open>The listener, awaited: what the request gets, and the state it leaves.\<close>

definition request ::
  "(string \<Rightarrow> string option) \<Rightarrow> int \<Rightarrow> int \<Rightarrow> fetch_outcome \<Rightarrow> fetch_outcome \<Rightarrow>
     state \<Rightarrow> string \<Rightarrow> bool \<times> state" where
  "request hostname_of now0 now1 out_domain out_root st url =
     settle now1 out_domain out_root (onBeforeRequest hostname_of now0 st url)"

section \<open>Invariants of the running extension\<close>

text \<open>
  Every key of \<^verbatim>\<open>dnsCache\<close> is a name with more than two labels, and so is the
  domain of every evaluation that waits for the network.
\<close>

definition nonroot_cache :: "state \<Rightarrow> bool" where
  "nonroot_cache st \<longleftrightarrow> (\<forall>d \<in> dom (dnsCache st). getRootDomain d \<noteq> d)"

fun nonroot_suspended :: "suspended \<Rightarrow> bool" where
  "nonroot_suspended (AwaitDomain domain rootDomain) = (getRootDomain domain \<noteq> domain)"
| "nonroot_suspended (AwaitRoot domain rootDomain domainResult) = (getRootDomain domain \<noteq> domain)"
| "nonroot_suspended (Returned domain verdict) = True"

definition nonroot_config :: "config \<Rightarrow> bool" where
  "nonroot_config c \<longleftrightarrow> nonroot_cache (fst c) \<and> (\<forall>s \<in> set (snd c). nonroot_suspended s)"

section \<open>Requests one after another, evaluations in flight\<close>

text \<open>
  Listener calls for one URL, each awaited to its end before the next begins. Every
  call has its own clock readings and its own answers from the network.
\<close>

type_synonym surroundings = "int \<times> int \<times> fetch_outcome \<times> fetch_outcome"

fun requests ::
  "(string \<Rightarrow> string option) \<Rightarrow> surroundings list \<Rightarrow> state \<Rightarrow> string \<Rightarrow> bool list \<times> state" where
  "requests hostname_of [] st url = ([], st)"
| "requests hostname_of ((now0, now1, out_domain, out_root) # rest) st url =
     (let (b, st') = request hostname_of now0 now1 out_domain out_root st url;
          (bs, st'') = requests hostname_of rest st' url
      in (b # bs, st''))"

text \<open>The domain that a suspended evaluation is about, and how many there are for a domain.\<close>

fun suspended_domain :: "suspended \<Rightarrow> string" where
  "suspended_domain (AwaitDomain domain rootDomain) = domain"
| "suspended_domain (AwaitRoot domain rootDomain domainResult) = domain"
| "suspended_domain (Returned domain verdict) = domain"

definition in_flight :: "config \<Rightarrow> string \<Rightarrow> nat" where
  "in_flight c domain = length (filter (\<lambda>s. suspended_domain s = domain) (snd c))"

section \<open>Example inputs\<close>

text \<open>A response with status 0 and the given name servers as NS records of the Answer section.\<close>

definition example_answer :: "string list \<Rightarrow> fetch_outcome" where
  "example_answer names =
     Response 200 (Some (JObj
       [(''Status'', JNum 0),
        (''Answer'',
         JArr (map (\<lambda>n. JObj [(''name'', JStr ''a.com''), (''type'', JNum 2), (''data'', JStr n)])
                names))]))"

text \<open>
  A response with status 0, no Answer section, and an Authority section with an SOA
  record of the given zone followed by the given name servers as NS records.
\<close>

definition example_authority :: "string \<Rightarrow> string list \<Rightarrow> fetch_outcome" where
  "example_authority zone names =
     Response 200 (Some (JObj
       [(''Status'', JNum 0),
        (''Authority'',
         JArr (JObj [(''name'', JStr zone), (''type'', JNum 6), (''data'', JStr ''ns. admin. 1'')] #
               map (\<lambda>n. JObj [(''name'', JStr zone), (''type'', JNum 2), (''data'', JStr n)])
                 names))]))"

text \<open>A URL parser that knows three URLs.\<close>

definition example_hostname_of :: "string \<Rightarrow> string option" where
  "example_hostname_of url =
     (if url = ''https://a.com/'' then Some ''a.com''
      else if url = ''https://t.a.com/p.gif'' then Some ''t.a.com''
      else if url = ''https://dns.google/resolve?name=a.com&type=NS'' then Some ''dns.google''
      else None)"

text \<open>The state after a tab went to \<^verbatim>\<open>https://a.com/\<close>.\<close>

definition example_tab_state :: state where
  "example_tab_state = initial_state\<lparr>activeRootDomains := {''a.com''}\<rparr>"

text \<open>
  The state after the evaluation of \<^verbatim>\<open>x.a.com\<close>, which has no records while \<^verbatim>\<open>a.com\<close>
  has a name server: \<^verbatim>\<open>dnsCache\<close> holds the verdict, stored at time 1.
\<close>

definition example_cached :: state where
  "example_cached =
     snd (shouldBlockDomain 0 1 (example_answer []) (example_answer [''ns1.reg.com''])
            initial_state ''x.a.com'')"

text \<open>
  The configuration after a tab went to \<^verbatim>\<open>https://a.com/\<close> and two requests for
  \<^verbatim>\<open>https://t.a.com/p.gif\<close> arrived before any answer of the network.
\<close>

definition example_two_requests :: config where
  "example_two_requests =
     (\<lparr>dnsCache = Map.empty, activeRootDomains = {''a.com''}, blockingDecisions = Map.empty,
       fetches = [dns_url ''t.a.com'', dns_url ''t.a.com'']\<rparr>,
      [AwaitDomain ''t.a.com'' ''a.com'', AwaitDomain ''t.a.com'' ''a.com''])"

text \<open>
  The state after a tab went to \<^verbatim>\<open>https://a.com/\<close> and one request for
  \<^verbatim>\<open>https://t.a.com/p.gif\<close> was answered: \<^verbatim>\<open>t.a.com\<close> had no records, \<^verbatim>\<open>a.com\<close> had a
  name server, and the verdict was stored at time 3.
\<close>

definition example_evaluated :: state where
  "example_evaluated =
     \<lparr>dnsCache = [''t.a.com'' \<mapsto> \<lparr>shouldBlock = True, timestamp = 3\<rparr>],
      activeRootDomains = {''a.com''},
      blockingDecisions = [''t.a.com'' \<mapsto> True],
      fetches = [dns_url ''t.a.com'', dns_url ''a.com'']\<rparr>"

section \<open>Auxiliary facts\<close>

lemma bindE_Inl [simp]: "bindE (Inl e) f = Inl e"
  by (simp add: bindE_def)

lemma bindE_Inr [simp]: "bindE (Inr x) f = f x"
  by (simp add: bindE_def)

lemma issue_fetch_fields [simp]:
  "dnsCache (issue_fetch st d) = dnsCache st"
  "activeRootDomains (issue_fetch st d) = activeRootDomains st"
  "blockingDecisions (issue_fetch st d) = blockingDecisions st"
  "fetches (issue_fetch st d) = fetches st @ [dns_url d]"
  by (simp_all add: issue_fetch_def)

text \<open>\<^verbatim>\<open>endsWith\<close> is the suffix relation on lists.\<close>

lemma endsWith_suffix: "endsWith s t \<longleftrightarrow> suffix t s"
proof
  assume "endsWith s t"
  then have "drop (length s - length t) s = t" by (simp add: endsWith_def)
  then have "s = take (length s - length t) s @ t"
    by (metis append_take_drop_id)
  then show "suffix t s" by (rule suffixI)
next
  assume "suffix t s"
  then obtain zs where "s = zs @ t" by (rule suffixE)
  then show "endsWith s t" by (simp add: endsWith_def)
qed

section \<open>Properties of the root domain\<close>

lemma str_split_not_Nil: "str_split c s \<noteq> []"
  by (induction s) (auto split: list.splits)

lemma str_split_prefix: "c \<notin> set p \<Longrightarrow> str_split c (p @ c # r) = p # str_split c r"
  by (induction p) auto

lemma str_split_single: "c \<notin> set p \<Longrightarrow> str_split c p = [p]"
  by (induction p) auto

lemma str_split_parts: "p \<in> set (str_split c s) \<Longrightarrow> c \<notin> set p"
  by (induction s arbitrary: p) (auto split: if_splits list.splits)

lemma slice_last2_pair:
  assumes "2 < length xs"
  obtains p q where "slice_last2 xs = [p, q]" "p \<in> set xs" "q \<in> set xs"
proof -
  let ?ys = "drop (length xs - 2) xs"
  have "length ?ys = 2" using assms by simp
  then obtain p q where pq: "?ys = [p, q]"
    by (cases ?ys; cases "tl ?ys") auto
  have "set ?ys \<subseteq> set xs" by (rule set_drop_subset)
  with pq have "p \<in> set xs" "q \<in> set xs" by auto
  with pq that show thesis by (simp add: slice_last2_def)
qed

text \<open>
  With more than two labels the root domain is the last two labels around a dot, and
  it splits into exactly these two.
\<close>

lemma getRootDomain_long:
  assumes "2 < length (str_split CHR ''.'' x)"
  obtains p q where "getRootDomain x = p @ CHR ''.'' # q"
    "str_split CHR ''.'' (p @ CHR ''.'' # q) = [p, q]"
proof -
  from assms obtain p q where pq: "slice_last2 (str_split CHR ''.'' x) = [p, q]"
    and p: "p \<in> set (str_split CHR ''.'' x)" and q: "q \<in> set (str_split CHR ''.'' x)"
    by (rule slice_last2_pair)
  have fp: "CHR ''.'' \<notin> set p" and fq: "CHR ''.'' \<notin> set q"
    using p q str_split_parts by blast+
  have r: "getRootDomain x = p @ CHR ''.'' # q"
    using assms pq by (simp add: getRootDomain_def)
  have "str_split CHR ''.'' (p @ CHR ''.'' # q) = [p, q]"
    using fp fq by (simp add: str_split_prefix str_split_single)
  with r that show thesis by blast
qed

text \<open>A name is its own root domain exactly when it has at most two labels.\<close>

lemma getRootDomain_fixed_iff:
  "getRootDomain x = x \<longleftrightarrow> length (str_split CHR ''.'' x) \<le> 2"
proof
  assume fixed: "getRootDomain x = x"
  show "length (str_split CHR ''.'' x) \<le> 2"
  proof (rule ccontr)
    assume "\<not> length (str_split CHR ''.'' x) \<le> 2"
    then have "2 < length (str_split CHR ''.'' x)" by simp
    then obtain p q where "getRootDomain x = p @ CHR ''.'' # q"
      "str_split CHR ''.'' (p @ CHR ''.'' # q) = [p, q]"
      by (rule getRootDomain_long)
    with fixed have "length (str_split CHR ''.'' x) = 2" by simp
    with \<open>2 < length (str_split CHR ''.'' x)\<close> show False by simp
  qed
next
  assume "length (str_split CHR ''.'' x) \<le> 2"
  then show "getRootDomain x = x" by (simp add: getRootDomain_def)
qed

text \<open>
  Claim C9. \<^verbatim>\<open>getRootDomain\<close> is idempotent: for every string \<open>x\<close>, the root domain of
  the root domain of \<open>x\<close> is the root domain of \<open>x\<close>.
\<close>

theorem getRootDomain_idempotent: "getRootDomain (getRootDomain x) = getRootDomain x"
proof (cases "length (str_split CHR ''.'' x) \<le> 2")
  case True
  then show ?thesis by (simp add: getRootDomain_def)
next
  case False
  then have "2 < length (str_split CHR ''.'' x)" by simp
  then obtain p q where r: "getRootDomain x = p @ CHR ''.'' # q"
    and s: "str_split CHR ''.'' (p @ CHR ''.'' # q) = [p, q]"
    by (rule getRootDomain_long)
  from s have "getRootDomain (p @ CHR ''.'' # q) = p @ CHR ''.'' # q"
    by (simp add: getRootDomain_def)
  with r show ?thesis by simp
qed

section \<open>The examples, evaluated\<close>

lemmas example_defs =
  example_answer_def example_authority_def getDnsServers_result_def getDnsServers_try_def ok_def
  answer_servers_def authority_result_def has_type_def ns_records_def lower_prop_def
  toLowerCase_def toLowerCase_char_def empty_result_def

lemma example_answer_result [simp]:
  "getDnsServers_result (example_answer []) = empty_result"
  "getDnsServers_result (example_answer [''ns1.reg.com'']) = \<lparr>servers = [''ns1.reg.com''], authority = None\<rparr>"
  "getDnsServers_result (example_answer [''ns9.other.net'']) = \<lparr>servers = [''ns9.other.net''], authority = None\<rparr>"
  by (simp_all add: example_defs)

lemma example_authority_result [simp]:
  "getDnsServers_result (example_authority '''' [''NS1.reg.com'']) = \<lparr>servers = [''ns1.reg.com''], authority = Some ''''\<rparr>"
  "getDnsServers_result (example_authority ''ThirdParty.net'' []) = \<lparr>servers = [], authority = Some ''thirdparty.net''\<rparr>"
  by (simp_all add: example_defs)

lemma example_roots [simp]:
  "getRootDomain ''a.com'' = ''a.com''"
  "getRootDomain ''x.a.com'' = ''a.com''"
  "getRootDomain ''y.a.com'' = ''a.com''"
  "getRootDomain ''t.a.com'' = ''a.com''"
  "getRootDomain ''sub.a.com'' = ''a.com''"
  "getRootDomain ''evil.a.com'' = ''a.com''"
  by (simp_all add: getRootDomain_def slice_last2_def)

lemma example_extract [simp]:
  "extractDomain example_hostname_of ''https://t.a.com/p.gif'' = Some ''t.a.com''"
  "extractDomain example_hostname_of ''https://a.com/'' = Some ''a.com''"
  by (simp_all add: extractDomain_def example_hostname_of_def)

lemma initial_miss [simp]: "cached_verdict initial_state now h = None"
  by (simp add: cached_verdict_def initial_state_def)

lemma example_tab_miss [simp]: "cached_verdict example_tab_state now h = None"
  by (simp add: cached_verdict_def example_tab_state_def initial_state_def)

section \<open>The lookup recovers from every error\<close>

lemma getDnsServers_result_caught:
  "getDnsServers_try outcome = Inl e \<Longrightarrow> getDnsServers_result outcome = empty_result"
  by (simp add: getDnsServers_result_def)

lemma getDnsServers_result_Rejected: "getDnsServers_result Rejected = empty_result"
  by (simp add: getDnsServers_result_def getDnsServers_try_def)

lemma getDnsServers_result_not_ok:
  "\<not> ok status \<Longrightarrow> getDnsServers_result (Response status body) = empty_result"
  by (simp add: getDnsServers_result_def getDnsServers_try_def)

lemma getDnsServers_result_not_json:
  "getDnsServers_result (Response status None) = empty_result"
  by (simp add: getDnsServers_result_def getDnsServers_try_def)

lemma getDnsServers_result_dns_error:
  assumes "get_prop data ''Status'' \<noteq> Inr (Some (JNum 0))"
  shows "getDnsServers_result (Response status (Some data)) = empty_result"
proof (cases "get_prop data ''Status''")
  case (Inl e)
  then show ?thesis by (simp add: getDnsServers_result_def getDnsServers_try_def)
next
  case (Inr v)
  with assms have "v \<noteq> Some (JNum 0)" by simp
  with Inr show ?thesis by (simp add: getDnsServers_result_def getDnsServers_try_def)
qed

text \<open>
  Claim C8. \<^verbatim>\<open>getDnsServers\<close> hands no error to its caller. Whatever the \<^verbatim>\<open>try\<close>
  block throws, the result is the empty result \<^verbatim>\<open>{ servers: [], authority: null }\<close>;
  so it is when the fetch is rejected, when the status of the response is not one of
  200 to 299, when the body is not JSON, and when the \<^verbatim>\<open>Status\<close> field of the body is
  anything but the number 0.
\<close>

theorem getDnsServers_recovers:
  "(getDnsServers_try outcome = Inl e \<longrightarrow>
      fst (getDnsServers outcome st name) = empty_result) \<and>
   fst (getDnsServers Rejected st name) = empty_result \<and>
   (\<not> ok status \<longrightarrow> fst (getDnsServers (Response status body) st name) = empty_result) \<and>
   fst (getDnsServers (Response status' None) st name) = empty_result \<and>
   (get_prop data ''Status'' \<noteq> Inr (Some (JNum 0)) \<longrightarrow>
      fst (getDnsServers (Response status' (Some data)) st name) = empty_result)"
  by (simp add: getDnsServers_def getDnsServers_result_caught getDnsServers_result_Rejected
      getDnsServers_result_not_ok getDnsServers_result_not_json getDnsServers_result_dns_error)

text \<open>
  An instance: a response with status 503 throws the HTTP error inside the \<^verbatim>\<open>try\<close>
  block, and a body with \<^verbatim>\<open>Status\<close> 3 (NXDOMAIN) is a DNS error.
\<close>

theorem getDnsServers_recovers_witness:
  "getDnsServers_try (Response 503 None) = Inl (HttpError 503) \<and>
   fst (getDnsServers (Response 503 None) initial_state ''a.com'') = empty_result \<and>
   fst (getDnsServers Rejected initial_state ''a.com'') = empty_result \<and>
   \<not> ok 503 \<and>
   fst (getDnsServers (Response 200 None) initial_state ''a.com'') = empty_result \<and>
   get_prop (JObj [(''Status'', JNum 3)]) ''Status'' \<noteq> Inr (Some (JNum 0)) \<and>
   fst (getDnsServers (Response 200 (Some (JObj [(''Status'', JNum 3)]))) initial_state ''a.com'')
     = empty_result"
  using getDnsServers_recovers [of "Response 503 None" "HttpError 503" initial_state "''a.com''"
      503 None 200 "JObj [(''Status'', JNum 3)]"]
  by (simp add: getDnsServers_try_def ok_def)

section \<open>The comparison of the name servers\<close>

text \<open>
  Without an entry of \<^verbatim>\<open>dnsCache\<close> that is younger than the TTL, a name with more
  than two labels is looked up, then its root, and the two results are compared.
\<close>

lemma shouldBlockDomain_miss:
  assumes "cached_verdict st now0 h = None" and "getRootDomain h \<noteq> h"
  shows "shouldBlockDomain now0 now1 out_domain out_root st h =
     compare_results now1 (issue_fetch (issue_fetch st h) (getRootDomain h)) h (getRootDomain h)
       (getDnsServers_result out_domain) (getDnsServers_result out_root)"
  using assms by (auto simp: shouldBlockDomain_def getDnsServers_def Let_def)

lemma shouldBlockDomain_hit:
  "cached_verdict st now0 h = Some v \<Longrightarrow>
   shouldBlockDomain now0 now1 out_domain out_root st h = (v, st)"
  by (simp add: shouldBlockDomain_def)

lemma compare_results_keeps:
  assumes "compare_results now st d r dr rr = (b, st')"
  shows "activeRootDomains st' = activeRootDomains st"
    and "blockingDecisions st' = blockingDecisions st"
    and "fetches st' = fetches st"
  using assms by (auto simp: compare_results_def Let_def split: if_splits)

lemma shouldBlockDomain_keeps:
  assumes "shouldBlockDomain now0 now1 out_domain out_root st h = (b, st')"
  shows "activeRootDomains st' = activeRootDomains st"
    and "blockingDecisions st' = blockingDecisions st"
  using assms
  by (auto simp: shouldBlockDomain_def getDnsServers_def Let_def
      split: option.splits if_splits dest: compare_results_keeps)

lemma shouldBlockDomain_miss_fetches:
  assumes "cached_verdict st now0 h = None" and "getRootDomain h \<noteq> h"
  shows "fetches (snd (shouldBlockDomain now0 now1 out_domain out_root st h)) =
     fetches st @ [dns_url h, dns_url (getRootDomain h)]"
proof -
  obtain b st' where c: "compare_results now1 (issue_fetch (issue_fetch st h) (getRootDomain h))
      h (getRootDomain h) (getDnsServers_result out_domain) (getDnsServers_result out_root) = (b, st')"
    by (cases "compare_results now1 (issue_fetch (issue_fetch st h) (getRootDomain h))
      h (getRootDomain h) (getDnsServers_result out_domain) (getDnsServers_result out_root)")
  then have "fetches st' = fetches (issue_fetch (issue_fetch st h) (getRootDomain h))"
    by (rule compare_results_keeps)
  with c assms show ?thesis by (simp add: shouldBlockDomain_miss)
qed

text \<open>
  Claim C6. For a host name \<open>h\<close> that is not its own root domain, when the lookup of
  the root domain gives no name server, \<^verbatim>\<open>shouldBlockDomain\<close> returns false, whatever
  the lookup of \<open>h\<close> gives. The lookups take place when \<^verbatim>\<open>dnsCache\<close> has no entry
  for \<open>h\<close> that is younger than the TTL.
\<close>

theorem empty_root_allows:
  assumes "cached_verdict st now0 h = None" and "getRootDomain h \<noteq> h"
    and "servers (getDnsServers_result out_root) = []"
  shows "fst (shouldBlockDomain now0 now1 out_domain out_root st h) = False"
  using assms by (simp add: shouldBlockDomain_miss compare_results_def)

text \<open>An instance: the lookup of the root \<^verbatim>\<open>a.com\<close> fails with status 503.\<close>

theorem empty_root_allows_witness:
  "cached_verdict initial_state 0 ''sub.a.com'' = None \<and>
   getRootDomain ''sub.a.com'' \<noteq> ''sub.a.com'' \<and>
   servers (getDnsServers_result (Response 503 None)) = [] \<and>
   fst (shouldBlockDomain 0 1 (example_answer [''ns9.other.net'']) (Response 503 None)
          initial_state ''sub.a.com'') = False"
  using empty_root_allows [of initial_state 0 "''sub.a.com''" "Response 503 None" 1
      "example_answer [''ns9.other.net'']"]
  by (simp add: getDnsServers_result_not_ok ok_def empty_result_def)

text \<open>
  Claim C5. When the lookup of the host name gives no name server and no authority,
  and the lookup of its root gives at least one name server, \<^verbatim>\<open>shouldBlockDomain\<close>
  returns true. The lookups take place when \<open>h\<close> is not its own root domain and
  \<^verbatim>\<open>dnsCache\<close> has no entry for \<open>h\<close> that is younger than the TTL.
\<close>

theorem no_records_blocks:
  assumes "cached_verdict st now0 h = None" and "getRootDomain h \<noteq> h"
    and "servers (getDnsServers_result out_domain) = []"
    and "authority (getDnsServers_result out_domain) = None"
    and "servers (getDnsServers_result out_root) \<noteq> []"
  shows "fst (shouldBlockDomain now0 now1 out_domain out_root st h) = True"
  using assms by (simp add: shouldBlockDomain_miss compare_results_def foreign_zone_def)

text \<open>An instance: \<^verbatim>\<open>x.a.com\<close> has no records, \<^verbatim>\<open>a.com\<close> has one name server.\<close>

theorem no_records_blocks_witness:
  "cached_verdict initial_state 0 ''x.a.com'' = None \<and>
   getRootDomain ''x.a.com'' \<noteq> ''x.a.com'' \<and>
   servers (getDnsServers_result (example_answer [])) = [] \<and>
   authority (getDnsServers_result (example_answer [])) = None \<and>
   servers (getDnsServers_result (example_answer [''ns1.reg.com''])) \<noteq> [] \<and>
   fst (shouldBlockDomain 0 1 (example_answer []) (example_answer [''ns1.reg.com''])
          initial_state ''x.a.com'') = True"
  using no_records_blocks [of initial_state 0 "''x.a.com''" "example_answer []"
      "example_answer [''ns1.reg.com'']" 1]
  by (simp add: empty_result_def)

text \<open>
  Claim C4, for a non-empty authority. When the lookup of the root gives at least one
  name server, and the lookup of the host name gives an authority that is not the
  empty string, is not the root domain and does not end with a dot followed by the
  root domain, \<^verbatim>\<open>shouldBlockDomain\<close> returns true, whatever name servers the lookup
  of the host name gives. The lookups take place when \<open>h\<close> is not its own root
  domain and \<^verbatim>\<open>dnsCache\<close> has no entry for \<open>h\<close> that is younger than the TTL.
\<close>

theorem foreign_authority_blocks:
  assumes "cached_verdict st now0 h = None" and "getRootDomain h \<noteq> h"
    and "servers (getDnsServers_result out_root) \<noteq> []"
    and "authority (getDnsServers_result out_domain) = Some a"
    and "a \<noteq> []"
    and "a \<noteq> getRootDomain h" and "\<not> endsWith a (''.'' @ getRootDomain h)"
  shows "fst (shouldBlockDomain now0 now1 out_domain out_root st h) = True"
  using assms by (simp add: shouldBlockDomain_miss compare_results_def foreign_zone_def)

text \<open>
  An instance: the SOA record of the answer for \<^verbatim>\<open>evil.a.com\<close> names the zone
  \<^verbatim>\<open>ThirdParty.net\<close>.
\<close>

theorem foreign_authority_blocks_witness:
  "cached_verdict initial_state 0 ''evil.a.com'' = None \<and>
   getRootDomain ''evil.a.com'' \<noteq> ''evil.a.com'' \<and>
   servers (getDnsServers_result (example_answer [''ns1.reg.com''])) \<noteq> [] \<and>
   authority (getDnsServers_result (example_authority ''ThirdParty.net'' [])) =
     Some ''thirdparty.net'' \<and>
   ''thirdparty.net'' \<noteq> [] \<and>
   ''thirdparty.net'' \<noteq> getRootDomain ''evil.a.com'' \<and>
   \<not> endsWith ''thirdparty.net'' (''.'' @ getRootDomain ''evil.a.com'') \<and>
   fst (shouldBlockDomain 0 1 (example_authority ''ThirdParty.net'' [])
          (example_answer [''ns1.reg.com'']) initial_state ''evil.a.com'') = True"
  using foreign_authority_blocks [of initial_state 0 "''evil.a.com''"
      "example_answer [''ns1.reg.com'']" "example_authority ''ThirdParty.net'' []"
      "''thirdparty.net''" 1]
  by (simp add: endsWith_def)

text \<open>
  Claim C4 as stated fails for the empty authority. The answer for \<^verbatim>\<open>evil.a.com\<close>
  has an SOA record with the name \<^verbatim>\<open>""\<close> and the NS record \<^verbatim>\<open>NS1.reg.com\<close> in its
  Authority section, so the authority of the result is the empty string: it is
  present, it is not \<^verbatim>\<open>a.com\<close> and it does not end with \<^verbatim>\<open>.a.com\<close>. The test of
  line 115 reads the empty string as false, the name servers are compared, and
  \<^verbatim>\<open>ns1.reg.com\<close> is shared with the root: the verdict is false.
\<close>

theorem foreign_authority_counterexample:
  "cached_verdict initial_state 0 ''evil.a.com'' = None \<and>
   getRootDomain ''evil.a.com'' \<noteq> ''evil.a.com'' \<and>
   servers (getDnsServers_result (example_answer [''ns1.reg.com''])) \<noteq> [] \<and>
   authority (getDnsServers_result (example_authority '''' [''NS1.reg.com''])) = Some '''' \<and>
   '''' \<noteq> getRootDomain ''evil.a.com'' \<and>
   \<not> endsWith '''' (''.'' @ getRootDomain ''evil.a.com'') \<and>
   fst (shouldBlockDomain 0 1 (example_authority '''' [''NS1.reg.com''])
          (example_answer [''ns1.reg.com'']) initial_state ''evil.a.com'') = False"
  by (simp add: endsWith_def shouldBlockDomain_miss compare_results_def foreign_zone_def)

text \<open>
  Claim C3. When the lookups of the host name and of its root both give at least one
  name server, and the authority of the host name's result does not take the branch
  of lines 115 to 120, \<^verbatim>\<open>shouldBlockDomain\<close> returns true exactly when no name server
  is in both results: false with a shared name server, true without. The lookups
  take place when \<open>h\<close> is not its own root domain and \<^verbatim>\<open>dnsCache\<close> has no entry for
  \<open>h\<close> that is younger than the TTL.
\<close>

theorem shared_nameserver_decides:
  assumes "cached_verdict st now0 h = None" and "getRootDomain h \<noteq> h"
    and "servers (getDnsServers_result out_domain) \<noteq> []"
    and "servers (getDnsServers_result out_root) \<noteq> []"
    and "\<not> foreign_zone (authority (getDnsServers_result out_domain)) (getRootDomain h)"
  shows "fst (shouldBlockDomain now0 now1 out_domain out_root st h) \<longleftrightarrow>
     set (servers (getDnsServers_result out_domain)) \<inter>
     set (servers (getDnsServers_result out_root)) = {}"
  using assms
  by (auto simp: shouldBlockDomain_miss compare_results_def list_ex_iff)

text \<open>
  Two instances: \<^verbatim>\<open>sub.a.com\<close> with the name server of \<^verbatim>\<open>a.com\<close> is allowed, with
  another name server it is blocked.
\<close>

theorem shared_nameserver_decides_witness:
  "cached_verdict initial_state 0 ''sub.a.com'' = None \<and>
   getRootDomain ''sub.a.com'' \<noteq> ''sub.a.com'' \<and>
   servers (getDnsServers_result (example_answer [''ns1.reg.com''])) \<noteq> [] \<and>
   servers (getDnsServers_result (example_answer [''ns9.other.net''])) \<noteq> [] \<and>
   \<not> foreign_zone (authority (getDnsServers_result (example_answer [''ns1.reg.com''])))
       (getRootDomain ''sub.a.com'') \<and>
   \<not> foreign_zone (authority (getDnsServers_result (example_answer [''ns9.other.net''])))
       (getRootDomain ''sub.a.com'') \<and>
   fst (shouldBlockDomain 0 1 (example_answer [''ns1.reg.com''])
          (example_answer [''ns1.reg.com'']) initial_state ''sub.a.com'') = False \<and>
   fst (shouldBlockDomain 0 1 (example_answer [''ns9.other.net''])
          (example_answer [''ns1.reg.com'']) initial_state ''sub.a.com'') = True"
  using
    shared_nameserver_decides [of initial_state 0 "''sub.a.com''"
      "example_answer [''ns1.reg.com'']" "example_answer [''ns1.reg.com'']" 1]
    shared_nameserver_decides [of initial_state 0 "''sub.a.com''"
      "example_answer [''ns9.other.net'']" "example_answer [''ns1.reg.com'']" 1]
  by (simp add: foreign_zone_def)

section \<open>The cache of verdicts\<close>

lemma example_cached_eq:
  "example_cached = \<lparr>dnsCache = [''x.a.com'' \<mapsto> \<lparr>shouldBlock = True, timestamp = 1\<rparr>],
     activeRootDomains = {}, blockingDecisions = Map.empty,
     fetches = [dns_url ''x.a.com'', dns_url ''a.com'']\<rparr>"
proof -
  have "shouldBlockDomain 0 1 (example_answer []) (example_answer [''ns1.reg.com''])
      initial_state ''x.a.com'' =
    compare_results 1 (issue_fetch (issue_fetch initial_state ''x.a.com'') ''a.com'')
      ''x.a.com'' ''a.com'' empty_result \<lparr>servers = [''ns1.reg.com''], authority = None\<rparr>"
    by (simp add: shouldBlockDomain_miss)
  then show ?thesis
    by (simp add: example_cached_def compare_results_def foreign_zone_def empty_result_def
        issue_fetch_def initial_state_def)
qed

text \<open>
  Claim C1, as the code has it. \<^verbatim>\<open>dnsCache\<close> holds verdicts, one per host name, and
  no answer of the network is kept. A call of \<^verbatim>\<open>shouldBlockDomain\<close> for a name whose
  entry is less than 300000 ms old returns the stored verdict and issues no network
  call. A call for a name with more than two labels that has no entry, or an entry
  that is at least 300000 ms old, issues two new network calls: for the name, then
  for its root. Every call of \<^verbatim>\<open>getDnsServers\<close> issues one network call.
\<close>

theorem verdict_cache_ttl:
  "(dnsCache st h = Some e \<and> now0 - timestamp e < 300000 \<longrightarrow>
      shouldBlockDomain now0 now1 out_domain out_root st h = (shouldBlock e, st)) \<and>
   ((dnsCache st h = None \<or> dnsCache st h = Some e \<and> 300000 \<le> now0 - timestamp e) \<and>
    getRootDomain h \<noteq> h \<longrightarrow>
      fetches (snd (shouldBlockDomain now0 now1 out_domain out_root st h)) =
        fetches st @ [dns_url h, dns_url (getRootDomain h)]) \<and>
   fetches (snd (getDnsServers outcome st h)) = fetches st @ [dns_url h]"
proof (intro conjI impI)
  assume "dnsCache st h = Some e \<and> now0 - timestamp e < 300000"
  then have "cached_verdict st now0 h = Some (shouldBlock e)"
    by (simp add: cached_verdict_def cacheTTL_def)
  then show "shouldBlockDomain now0 now1 out_domain out_root st h = (shouldBlock e, st)"
    by (rule shouldBlockDomain_hit)
next
  assume a: "(dnsCache st h = None \<or> dnsCache st h = Some e \<and> 300000 \<le> now0 - timestamp e) \<and>
    getRootDomain h \<noteq> h"
  then have "cached_verdict st now0 h = None"
    by (auto simp: cached_verdict_def cacheTTL_def)
  with a show "fetches (snd (shouldBlockDomain now0 now1 out_domain out_root st h)) =
        fetches st @ [dns_url h, dns_url (getRootDomain h)]"
    by (simp add: shouldBlockDomain_miss_fetches)
next
  show "fetches (snd (getDnsServers outcome st h)) = fetches st @ [dns_url h]"
    by (simp add: getDnsServers_def)
qed

text \<open>
  An instance: the verdict for \<^verbatim>\<open>x.a.com\<close> was stored at time 1. At time 1000 it is
  returned and the state is unchanged; at time 300001 both lookups go out again.
\<close>

theorem verdict_cache_ttl_witness:
  "dnsCache example_cached ''x.a.com'' = Some \<lparr>shouldBlock = True, timestamp = 1\<rparr> \<and>
   (1000::int) - 1 < 300000 \<and>
   shouldBlockDomain 1000 1001 Rejected Rejected example_cached ''x.a.com'' = (True, example_cached) \<and>
   (300000::int) \<le> 300001 - 1 \<and> getRootDomain ''x.a.com'' \<noteq> ''x.a.com'' \<and>
   fetches (snd (shouldBlockDomain 300001 300002 Rejected Rejected example_cached ''x.a.com'')) =
     fetches example_cached @ [dns_url ''x.a.com'', dns_url ''a.com''] \<and>
   fetches (snd (getDnsServers Rejected example_cached ''x.a.com'')) =
     fetches example_cached @ [dns_url ''x.a.com'']"
proof -
  have e: "dnsCache example_cached ''x.a.com'' = Some \<lparr>shouldBlock = True, timestamp = 1\<rparr>"
    by (simp add: example_cached_eq)
  show ?thesis
    using e
      verdict_cache_ttl [of example_cached "''x.a.com''" "\<lparr>shouldBlock = True, timestamp = 1\<rparr>"
        1000 1001 Rejected Rejected Rejected]
      verdict_cache_ttl [of example_cached "''x.a.com''" "\<lparr>shouldBlock = True, timestamp = 1\<rparr>"
        300001 300002 Rejected Rejected Rejected]
    by simp
qed

text \<open>
  Claim C1 as stated fails. \<^verbatim>\<open>x.a.com\<close> is evaluated at the times 0 and 1, then
  \<^verbatim>\<open>y.a.com\<close> at the times 2 and 3. Both evaluations look up \<^verbatim>\<open>a.com\<close>, and both
  lookups go to the network: two network calls for one name within 3 ms.
\<close>

theorem answer_cache_counterexample:
  "count_list
     (fetches (snd (shouldBlockDomain 2 3 (example_answer []) (example_answer [''ns1.reg.com''])
                      example_cached ''y.a.com'')))
     (dns_url ''a.com'') = 2"
proof -
  have "cached_verdict example_cached 2 ''y.a.com'' = None"
    by (simp add: cached_verdict_def example_cached_eq)
  then have "fetches (snd (shouldBlockDomain 2 3 (example_answer []) (example_answer [''ns1.reg.com''])
                      example_cached ''y.a.com'')) =
     fetches example_cached @ [dns_url ''y.a.com'', dns_url ''a.com'']"
    by (simp add: shouldBlockDomain_miss_fetches)
  then show ?thesis by (simp add: example_cached_eq dns_url_def)
qed

section \<open>What every step of the extension preserves\<close>

lemma nonroot_cache_issue_fetch [simp]: "nonroot_cache (issue_fetch st d) = nonroot_cache st"
  by (simp add: nonroot_cache_def)

lemma compare_results_nonroot:
  assumes "nonroot_cache st" and "getRootDomain d \<noteq> d"
    and "compare_results now st d r dr rr = (b, st')"
  shows "nonroot_cache st'"
  using assms by (auto simp: compare_results_def nonroot_cache_def Let_def split: if_splits)

lemma shouldBlockDomain_start_nonroot:
  assumes "nonroot_cache st" and "shouldBlockDomain_start now st d = (s, st')"
  shows "nonroot_cache st' \<and> nonroot_suspended s"
  using assms
  by (auto simp: shouldBlockDomain_start_def Let_def split: option.splits if_splits)

lemma onBeforeRequest_now_nonroot:
  assumes "nonroot_cache st" and "onBeforeRequest P now st url = (Cancel b, st')"
  shows "nonroot_cache st'"
  using assms
  by (auto simp: onBeforeRequest_def Let_def split: option.splits if_splits prod.splits)

lemma onBeforeRequest_later_nonroot:
  assumes "nonroot_cache st" and "onBeforeRequest P now st url = (Promise s, st')"
  shows "nonroot_cache st' \<and> nonroot_suspended s"
  using assms
  by (auto simp: onBeforeRequest_def Let_def split: option.splits if_splits prod.splits
      dest: shouldBlockDomain_start_nonroot)

lemma resume_nonroot:
  assumes "nonroot_cache st" and "nonroot_suspended p" and "resume now outcome st p = (r, st')"
  shows "nonroot_cache st' \<and> (\<forall>s. r = Promise s \<longrightarrow> nonroot_suspended s)"
  using assms
  by (cases p) (auto simp: nonroot_cache_def split: prod.splits dest: compare_results_nonroot [unfolded nonroot_cache_def])

lemma step_nonroot:
  assumes "step P c c'" and "nonroot_config c"
  shows "nonroot_config c'"
  using assms
proof (induction rule: step.induct)
  case (request_now now st url b st' ps)
  then show ?case by (auto simp: nonroot_config_def dest: onBeforeRequest_now_nonroot)
next
  case (request_later now st url s st' ps)
  then show ?case by (auto simp: nonroot_config_def dest: onBeforeRequest_later_nonroot)
next
  case (resume_on i ps now outcome st s st')
  then have "nonroot_cache st" and "nonroot_suspended (ps ! i)"
    by (auto simp: nonroot_config_def)
  with resume_on have "nonroot_cache st' \<and> nonroot_suspended s"
    using resume_nonroot by blast
  moreover have "set (ps[i := s]) \<subseteq> insert s (set ps)" by (rule set_update_subset_insert)
  ultimately show ?case using resume_on by (auto simp: nonroot_config_def)
next
  case (resume_end i ps now outcome st b st')
  then have "nonroot_cache st" and "nonroot_suspended (ps ! i)"
    by (auto simp: nonroot_config_def)
  with resume_end have "nonroot_cache st'"
    using resume_nonroot by blast
  moreover have "set (take i ps @ drop (Suc i) ps) \<subseteq> set ps"
    by (auto dest: in_set_takeD in_set_dropD)
  ultimately show ?case using resume_end by (auto simp: nonroot_config_def)
next
  case (tab_updated st ps tab_url)
  then show ?case
    by (auto simp: nonroot_config_def nonroot_cache_def tabs_onUpdated_def split: option.splits)
next
  case (tab_removed st ps tab_urls)
  then show ?case by (auto simp: nonroot_config_def nonroot_cache_def tabs_onRemoved_def)
next
  case (tabs_listed st ps tab_urls)
  then show ?case by (auto simp: nonroot_config_def nonroot_cache_def tabs_initialize_def)
qed

lemma reachable_nonroot: "reachable P c \<Longrightarrow> nonroot_config c"
proof (induction rule: reachable.induct)
  case start
  show ?case by (simp add: nonroot_config_def nonroot_cache_def initial_state_def)
next
  case (after c c')
  then show ?case using step_nonroot by blast
qed

lemma nonroot_cache_miss:
  assumes "nonroot_cache st" and "getRootDomain h = h"
  shows "cached_verdict st now h = None"
proof -
  from assms have "h \<notin> dom (dnsCache st)" by (auto simp: nonroot_cache_def)
  then show ?thesis by (auto simp: cached_verdict_def split: option.splits)
qed

text \<open>The example configurations are reached by steps of the extension.\<close>

lemma example_tab_reachable: "reachable example_hostname_of (example_tab_state, [])"
proof -
  have "step example_hostname_of (initial_state, [])
      (tabs_onUpdated example_hostname_of initial_state (Some ''https://a.com/''), [])"
    by (rule step.tab_updated)
  moreover have "tabs_onUpdated example_hostname_of initial_state (Some ''https://a.com/'') =
      example_tab_state"
    by (simp add: tabs_onUpdated_def tab_root_def example_tab_state_def initial_state_def)
  ultimately have "step example_hostname_of (initial_state, []) (example_tab_state, [])"
    by simp
  with reachable.start show ?thesis by (rule reachable.after)
qed

lemma example_request_later:
  assumes "activeRootDomains st = {''a.com''}" and "blockingDecisions st = Map.empty"
    and "dnsCache st = Map.empty"
  shows "onBeforeRequest example_hostname_of now st ''https://t.a.com/p.gif'' =
     (Promise (AwaitDomain ''t.a.com'' ''a.com''), issue_fetch st ''t.a.com'')"
  using assms
  by (simp add: onBeforeRequest_def shouldBlockDomain_start_def cached_verdict_def Let_def)

lemma example_two_requests_reachable: "reachable example_hostname_of example_two_requests"
proof -
  let ?P = example_hostname_of
  let ?s1 = "issue_fetch example_tab_state ''t.a.com''"
  let ?s2 = "issue_fetch ?s1 ''t.a.com''"
  let ?p = "AwaitDomain ''t.a.com'' ''a.com''"
  have "onBeforeRequest ?P 0 example_tab_state ''https://t.a.com/p.gif'' = (Promise ?p, ?s1)"
    by (rule example_request_later) (simp_all add: example_tab_state_def initial_state_def)
  then have "step ?P (example_tab_state, []) (?s1, [] @ [?p])"
    by (rule step.request_later)
  with example_tab_reachable have r1: "reachable ?P (?s1, [] @ [?p])"
    by (rule reachable.after)
  have "onBeforeRequest ?P 0 ?s1 ''https://t.a.com/p.gif'' = (Promise ?p, ?s2)"
    by (rule example_request_later) (simp_all add: example_tab_state_def initial_state_def)
  then have "step ?P (?s1, [?p]) (?s2, [?p] @ [?p])"
    by (rule step.request_later)
  with r1 have "reachable ?P (?s2, [?p] @ [?p])"
    using reachable.after by fastforce
  moreover have "(?s2, [?p] @ [?p]) = example_two_requests"
    by (simp add: example_two_requests_def issue_fetch_def example_tab_state_def initial_state_def)
  ultimately show ?thesis by simp
qed

lemma example_evaluated_reachable: "reachable example_hostname_of (example_evaluated, [])"
proof -
  let ?P = example_hostname_of
  let ?s1 = "issue_fetch example_tab_state ''t.a.com''"
  let ?s2 = "issue_fetch ?s1 ''a.com''"
  let ?s3 = "?s2\<lparr>dnsCache := (dnsCache ?s2)(''t.a.com'' \<mapsto> \<lparr>shouldBlock = True, timestamp = 3\<rparr>)\<rparr>"
  let ?p1 = "AwaitDomain ''t.a.com'' ''a.com''"
  let ?p2 = "AwaitRoot ''t.a.com'' ''a.com'' empty_result"
  let ?p3 = "Returned ''t.a.com'' True"
  have "onBeforeRequest ?P 0 example_tab_state ''https://t.a.com/p.gif'' = (Promise ?p1, ?s1)"
    by (rule example_request_later) (simp_all add: example_tab_state_def initial_state_def)
  then have "step ?P (example_tab_state, []) (?s1, [] @ [?p1])"
    by (rule step.request_later)
  with example_tab_reachable have r1: "reachable ?P (?s1, [?p1])"
    using reachable.after by fastforce
  have "resume 1 (example_answer []) ?s1 ([?p1] ! 0) = (Promise ?p2, ?s2)"
    by simp
  then have "step ?P (?s1, [?p1]) (?s2, [?p1][0 := ?p2])"
    by (rule step.resume_on [rotated]) simp
  with r1 have r2: "reachable ?P (?s2, [?p2])"
    using reachable.after by fastforce
  have "resume 3 (example_answer [''ns1.reg.com'']) ?s2 ([?p2] ! 0) = (Promise ?p3, ?s3)"
    by (simp add: compare_results_def foreign_zone_def empty_result_def)
  then have "step ?P (?s2, [?p2]) (?s3, [?p2][0 := ?p3])"
    by (rule step.resume_on [rotated]) simp
  with r2 have r3: "reachable ?P (?s3, [?p3])"
    using reachable.after by fastforce
  have "resume 4 Rejected ?s3 ([?p3] ! 0) = (Cancel True, example_evaluated)"
    by (simp add: example_evaluated_def issue_fetch_def example_tab_state_def initial_state_def)
  then have "step ?P (?s3, [?p3]) (example_evaluated, take 0 [?p3] @ drop (Suc 0) [?p3])"
    by (rule step.resume_end [rotated]) simp
  with r3 show ?thesis
    using reachable.after by fastforce
qed

text \<open>
  Claim C7. For a host name \<open>h\<close> that is its own root domain, \<^verbatim>\<open>shouldBlockDomain\<close>
  returns false and leaves the state as it is, so no DNS lookup is issued: the
  record of the network calls is part of the state. This holds in every state that
  the extension can reach, since \<^verbatim>\<open>dnsCache\<close> never has an entry for such a name.
\<close>

theorem root_domain_allowed:
  assumes "reachable hostname_of (st, ps)" and "getRootDomain h = h"
  shows "shouldBlockDomain now0 now1 out_domain out_root st h = (False, st)"
proof -
  from assms(1) have "nonroot_cache st"
    using reachable_nonroot by (fastforce simp: nonroot_config_def)
  then have "cached_verdict st now0 h = None"
    using assms(2) by (rule nonroot_cache_miss)
  with assms(2) show ?thesis by (simp add: shouldBlockDomain_def)
qed

text \<open>
  An instance: \<^verbatim>\<open>a.com\<close> in the state after \<^verbatim>\<open>t.a.com\<close> was evaluated, where
  \<^verbatim>\<open>dnsCache\<close> has an entry.
\<close>

theorem root_domain_allowed_witness:
  "reachable example_hostname_of (example_evaluated, []) \<and>
   getRootDomain ''a.com'' = ''a.com'' \<and>
   shouldBlockDomain 1000 1001 (example_answer [''ns9.other.net''])
     (example_answer [''ns1.reg.com'']) example_evaluated ''a.com'' = (False, example_evaluated)"
  using root_domain_allowed [of example_hostname_of example_evaluated "[]" "''a.com''" 1000 1001
      "example_answer [''ns9.other.net'']" "example_answer [''ns1.reg.com'']"]
    example_evaluated_reachable
  by simp

section \<open>The request listener\<close>

text \<open>
  Claim C10. For a URL whose host name is \<^verbatim>\<open>dns.google\<close> the listener returns
  \<^verbatim>\<open>{ cancel: false }\<close> at once, in every state: it creates no promise, so nothing is
  evaluated, and it leaves the state as it is, so no DNS lookup is issued. Neither
  \<^verbatim>\<open>activeRootDomains\<close> nor \<^verbatim>\<open>blockingDecisions\<close> is read.
\<close>

theorem dns_google_exempt:
  assumes "extractDomain hostname_of url = Some ''dns.google''"
  shows "onBeforeRequest hostname_of now st url = (Cancel False, st)"
  using assms by (simp add: onBeforeRequest_def)

text \<open>
  An instance: a state in which \<^verbatim>\<open>dns.google\<close> is an active root domain and has
  the stored decision to block.
\<close>

theorem dns_google_exempt_witness:
  "extractDomain example_hostname_of ''https://dns.google/resolve?name=a.com&type=NS'' =
     Some ''dns.google'' \<and>
   onBeforeRequest example_hostname_of 0
     (initial_state\<lparr>activeRootDomains := {''dns.google''},
        blockingDecisions := [''dns.google'' \<mapsto> True]\<rparr>)
     ''https://dns.google/resolve?name=a.com&type=NS'' =
   (Cancel False,
    initial_state\<lparr>activeRootDomains := {''dns.google''},
      blockingDecisions := [''dns.google'' \<mapsto> True]\<rparr>)"
  using dns_google_exempt [of example_hostname_of
      "''https://dns.google/resolve?name=a.com&type=NS''" 0
      "initial_state\<lparr>activeRootDomains := {''dns.google''},
         blockingDecisions := [''dns.google'' \<mapsto> True]\<rparr>"]
  by (simp add: extractDomain_def example_hostname_of_def)

text \<open>The suspended evaluation, resumed to its end, is \<open>shouldBlockDomain\<close> followed by line 258.\<close>

lemma settle_start:
  assumes "shouldBlockDomain_start now0 st h = (s, st0)"
    and "shouldBlockDomain now0 now1 out_domain out_root st h = (b, st')"
  shows "settle now1 out_domain out_root (Promise s, st0) =
     (b, st'\<lparr>blockingDecisions := (blockingDecisions st')(h \<mapsto> b)\<rparr>)"
proof (cases "cached_verdict st now0 h")
  case (Some v)
  with assms show ?thesis
    by (auto simp: shouldBlockDomain_start_def shouldBlockDomain_def)
next
  case None
  show ?thesis
  proof (cases "h = getRootDomain h")
    case True
    with None assms show ?thesis
      by (auto simp: shouldBlockDomain_start_def shouldBlockDomain_def Let_def)
  next
    case False
    with None assms show ?thesis
      by (auto simp: shouldBlockDomain_start_def shouldBlockDomain_def getDnsServers_def Let_def
          split: prod.splits)
  qed
qed

lemma request_unseen:
  assumes "extractDomain P url = Some h" and "h \<noteq> []" and "h \<noteq> ''dns.google''"
    and "getRootDomain h \<in> activeRootDomains st" and "getRootDomain h \<noteq> h"
    and "blockingDecisions st h = None"
    and "shouldBlockDomain now0 now1 out_domain out_root st h = (b, st')"
  shows "request P now0 now1 out_domain out_root st url =
     (b, st'\<lparr>blockingDecisions := (blockingDecisions st')(h \<mapsto> b)\<rparr>)"
proof -
  obtain s st0 where start: "shouldBlockDomain_start now0 st h = (s, st0)"
    by (cases "shouldBlockDomain_start now0 st h")
  with assms have "onBeforeRequest P now0 st url = (Promise s, st0)"
    by (auto simp: onBeforeRequest_def Let_def)
  then show ?thesis
    using settle_start [OF start assms(7)] by (simp add: request_def)
qed

lemma request_seen:
  assumes "extractDomain P url = Some h" and "h \<noteq> []" and "h \<noteq> ''dns.google''"
    and "getRootDomain h \<in> activeRootDomains st" and "getRootDomain h \<noteq> h"
    and "blockingDecisions st h = Some v"
  shows "request P now0 now1 out_domain out_root st url = (v, st)"
  using assms by (auto simp: request_def onBeforeRequest_def Let_def)

text \<open>An immediate reply depends on neither the clock nor the network and changes nothing.\<close>

lemma onBeforeRequest_Cancel:
  assumes "onBeforeRequest P now st url = (Cancel b, st')"
  shows "st' = st" and "onBeforeRequest P now' st url = (Cancel b, st)"
  using assms
  by (auto simp: onBeforeRequest_def Let_def split: option.splits if_splits prod.splits)

lemma onBeforeRequest_Promise:
  assumes "onBeforeRequest P now st url = (Promise s, st')"
  obtains h where "extractDomain P url = Some h" "h \<noteq> []" "h \<noteq> ''dns.google''"
    "getRootDomain h \<in> activeRootDomains st" "getRootDomain h \<noteq> h"
    "blockingDecisions st h = None"
  using assms
  by (auto simp: onBeforeRequest_def Let_def split: option.splits if_splits prod.splits)

text \<open>Once a call has been awaited to its end, the same call again returns the same verdict.\<close>

lemma request_again:
  assumes "request P now0 now1 out_domain out_root st url = (b, st1)"
  shows "request P now0' now1' out_domain' out_root' st1 url = (b, st1)"
proof (cases "onBeforeRequest P now0 st url")
  case (Pair r st0)
  show ?thesis
  proof (cases r)
    case (Cancel c)
    with Pair assms have "c = b" and "st0 = st1" by (simp_all add: request_def)
    with Pair Cancel have "onBeforeRequest P now0 st url = (Cancel b, st1)" by simp
    then have "st1 = st" and "onBeforeRequest P now0' st url = (Cancel b, st)"
      by (rule onBeforeRequest_Cancel)+
    then show ?thesis by (simp add: request_def)
  next
    case (Promise s)
    with Pair have "onBeforeRequest P now0 st url = (Promise s, st0)" by simp
    then obtain h where h: "extractDomain P url = Some h" "h \<noteq> []" "h \<noteq> ''dns.google''"
      "getRootDomain h \<in> activeRootDomains st" "getRootDomain h \<noteq> h"
      "blockingDecisions st h = None"
      by (rule onBeforeRequest_Promise)
    obtain v st' where sb: "shouldBlockDomain now0 now1 out_domain out_root st h = (v, st')"
      by (cases "shouldBlockDomain now0 now1 out_domain out_root st h")
    from request_unseen [OF h sb] assms
    have b: "b = v" and st1: "st1 = st'\<lparr>blockingDecisions := (blockingDecisions st')(h \<mapsto> v)\<rparr>"
      by simp_all
    from sb have "activeRootDomains st' = activeRootDomains st" by (rule shouldBlockDomain_keeps)
    with h st1 have "getRootDomain h \<in> activeRootDomains st1" by simp
    moreover from st1 have "blockingDecisions st1 h = Some v" by simp
    ultimately show ?thesis using h b by (simp add: request_seen)
  qed
qed

lemma requests_again:
  assumes "request P now0 now1 out_domain out_root st url = (b, st1)"
  shows "requests P rest st1 url = (replicate (length rest) b, st1)"
proof (induction rest)
  case Nil
  show ?case by simp
next
  case (Cons e rest)
  obtain n0 n1 od orr where e: "e = (n0, n1, od, orr)" by (cases e)
  have "request P n0 n1 od orr st1 url = (b, st1)" using assms by (rule request_again)
  with Cons e show ?case by simp
qed

text \<open>
  Claim C2, for calls that do not overlap. When the listener is called for one URL any
  number of times, each call awaited to its end before the next begins, every call
  gets the verdict of the first call, and the state after all of them is the state
  after the first: the later calls evaluate nothing and issue no network call,
  whatever the clock and the network would have given them. For a host name in scope
  without a stored decision, the first call is one run of \<^verbatim>\<open>shouldBlockDomain\<close>,
  whose verdict is stored in \<^verbatim>\<open>blockingDecisions\<close>; with a stored decision the
  listener returns it at once.
\<close>

theorem sequential_requests_one_evaluation:
  "requests P ((now0, now1, out_domain, out_root) # rest) st url =
     (replicate (Suc (length rest)) (fst (request P now0 now1 out_domain out_root st url)),
      snd (request P now0 now1 out_domain out_root st url)) \<and>
   (extractDomain P url = Some h \<and> h \<noteq> [] \<and> h \<noteq> ''dns.google'' \<and>
    getRootDomain h \<in> activeRootDomains st \<and> getRootDomain h \<noteq> h \<longrightarrow>
      (blockingDecisions st h = None \<longrightarrow>
         request P now0 now1 out_domain out_root st url =
           (let (b, st') = shouldBlockDomain now0 now1 out_domain out_root st h
            in (b, st'\<lparr>blockingDecisions := (blockingDecisions st')(h \<mapsto> b)\<rparr>))) \<and>
      (\<forall>v. blockingDecisions st h = Some v \<longrightarrow>
         onBeforeRequest P now0 st url = (Cancel v, st)))"
proof (intro conjI impI allI)
  obtain b st1 where r: "request P now0 now1 out_domain out_root st url = (b, st1)"
    by (cases "request P now0 now1 out_domain out_root st url")
  then have "requests P rest st1 url = (replicate (length rest) b, st1)"
    by (rule requests_again)
  with r show "requests P ((now0, now1, out_domain, out_root) # rest) st url =
     (replicate (Suc (length rest)) (fst (request P now0 now1 out_domain out_root st url)),
      snd (request P now0 now1 out_domain out_root st url))"
    by simp
next
  assume scope: "extractDomain P url = Some h \<and> h \<noteq> [] \<and> h \<noteq> ''dns.google'' \<and>
    getRootDomain h \<in> activeRootDomains st \<and> getRootDomain h \<noteq> h"
    and unseen: "blockingDecisions st h = None"
  obtain b st' where sb: "shouldBlockDomain now0 now1 out_domain out_root st h = (b, st')"
    by (cases "shouldBlockDomain now0 now1 out_domain out_root st h")
  with scope unseen have "request P now0 now1 out_domain out_root st url =
     (b, st'\<lparr>blockingDecisions := (blockingDecisions st')(h \<mapsto> b)\<rparr>)"
    by (simp add: request_unseen)
  with sb show "request P now0 now1 out_domain out_root st url =
           (let (b, st') = shouldBlockDomain now0 now1 out_domain out_root st h
            in (b, st'\<lparr>blockingDecisions := (blockingDecisions st')(h \<mapsto> b)\<rparr>))"
    by simp
next
  fix v
  assume "extractDomain P url = Some h \<and> h \<noteq> [] \<and> h \<noteq> ''dns.google'' \<and>
    getRootDomain h \<in> activeRootDomains st \<and> getRootDomain h \<noteq> h"
    and "blockingDecisions st h = Some v"
  then show "onBeforeRequest P now0 st url = (Cancel v, st)"
    by (auto simp: onBeforeRequest_def Let_def)
qed

text \<open>
  An instance: three calls for \<^verbatim>\<open>https://t.a.com/p.gif\<close>. The first finds another name
  server than the root has and blocks; the second and the third would find the name
  server of the root, or no network, and get the stored verdict. And a call in a
  state with a stored decision for \<^verbatim>\<open>t.a.com\<close> returns it at once.
\<close>

theorem sequential_requests_one_evaluation_witness:
  "extractDomain example_hostname_of ''https://t.a.com/p.gif'' = Some ''t.a.com'' \<and>
   ''t.a.com'' \<noteq> [] \<and> ''t.a.com'' \<noteq> ''dns.google'' \<and>
   getRootDomain ''t.a.com'' \<in> activeRootDomains example_tab_state \<and>
   getRootDomain ''t.a.com'' \<noteq> ''t.a.com'' \<and>
   blockingDecisions example_tab_state ''t.a.com'' = None \<and>
   requests example_hostname_of
     [(0, 1, example_answer [''ns9.other.net''], example_answer [''ns1.reg.com'']),
      (5, 6, example_answer [''ns1.reg.com''], example_answer [''ns1.reg.com'']),
      (7, 8, Rejected, Rejected)]
     example_tab_state ''https://t.a.com/p.gif'' =
   ([True, True, True],
    example_tab_state\<lparr>blockingDecisions := [''t.a.com'' \<mapsto> True],
      fetches := [dns_url ''t.a.com'', dns_url ''a.com'']\<rparr>) \<and>
   getRootDomain ''t.a.com'' \<in> activeRootDomains example_evaluated \<and>
   blockingDecisions example_evaluated ''t.a.com'' = Some True \<and>
   onBeforeRequest example_hostname_of 9 example_evaluated ''https://t.a.com/p.gif'' =
     (Cancel True, example_evaluated)"
proof -
  have seen: "getRootDomain ''t.a.com'' \<in> activeRootDomains example_evaluated"
    "blockingDecisions example_evaluated ''t.a.com'' = Some True"
    by (simp_all add: example_evaluated_def)
  with sequential_requests_one_evaluation [of example_hostname_of 9 10 Rejected Rejected "[]"
      example_evaluated "''https://t.a.com/p.gif''" "''t.a.com''"]
  have again: "onBeforeRequest example_hostname_of 9 example_evaluated ''https://t.a.com/p.gif'' =
     (Cancel True, example_evaluated)"
    by (auto simp del: requests.simps)
  have sb: "shouldBlockDomain 0 1 (example_answer [''ns9.other.net''])
      (example_answer [''ns1.reg.com'']) example_tab_state ''t.a.com'' =
    (True, example_tab_state\<lparr>fetches := [dns_url ''t.a.com'', dns_url ''a.com'']\<rparr>)"
  proof -
    have "shouldBlockDomain 0 1 (example_answer [''ns9.other.net''])
        (example_answer [''ns1.reg.com'']) example_tab_state ''t.a.com'' =
      compare_results 1 (issue_fetch (issue_fetch example_tab_state ''t.a.com'') ''a.com'')
        ''t.a.com'' ''a.com'' \<lparr>servers = [''ns9.other.net''], authority = None\<rparr>
        \<lparr>servers = [''ns1.reg.com''], authority = None\<rparr>"
      by (simp add: shouldBlockDomain_miss)
    then show ?thesis
      by (simp add: compare_results_def foreign_zone_def issue_fetch_def example_tab_state_def
          initial_state_def)
  qed
  have scope: "getRootDomain ''t.a.com'' \<in> activeRootDomains example_tab_state"
    "blockingDecisions example_tab_state ''t.a.com'' = None"
    by (simp_all add: example_tab_state_def initial_state_def)
  have st: "example_tab_state\<lparr>fetches := [dns_url ''t.a.com'', dns_url ''a.com''],
        blockingDecisions := (blockingDecisions example_tab_state)(''t.a.com'' \<mapsto> True)\<rparr> =
      example_tab_state\<lparr>blockingDecisions := [''t.a.com'' \<mapsto> True],
        fetches := [dns_url ''t.a.com'', dns_url ''a.com'']\<rparr>"
    by (simp add: example_tab_state_def initial_state_def)
  note t = sequential_requests_one_evaluation [of example_hostname_of 0 1
        "example_answer [''ns9.other.net'']" "example_answer [''ns1.reg.com'']"
        "[(5, 6, example_answer [''ns1.reg.com''], example_answer [''ns1.reg.com'']),
          (7, 8, Rejected, Rejected)]"
        example_tab_state "''https://t.a.com/p.gif''" "''t.a.com''"]
  from t scope sb have first: "request example_hostname_of 0 1 (example_answer [''ns9.other.net''])
      (example_answer [''ns1.reg.com'']) example_tab_state ''https://t.a.com/p.gif'' =
    (True, example_tab_state\<lparr>blockingDecisions := [''t.a.com'' \<mapsto> True],
      fetches := [dns_url ''t.a.com'', dns_url ''a.com'']\<rparr>)"
    by (simp del: requests.simps add: st)
  from t have "requests example_hostname_of
     [(0, 1, example_answer [''ns9.other.net''], example_answer [''ns1.reg.com'']),
      (5, 6, example_answer [''ns1.reg.com''], example_answer [''ns1.reg.com'']),
      (7, 8, Rejected, Rejected)]
     example_tab_state ''https://t.a.com/p.gif'' =
    (replicate 3 (fst (request example_hostname_of 0 1 (example_answer [''ns9.other.net''])
        (example_answer [''ns1.reg.com'']) example_tab_state ''https://t.a.com/p.gif'')),
     snd (request example_hostname_of 0 1 (example_answer [''ns9.other.net''])
        (example_answer [''ns1.reg.com'']) example_tab_state ''https://t.a.com/p.gif''))"
    by (simp del: requests.simps replicate.simps add: numeral_3_eq_3)
  with first scope seen again show ?thesis
    by (simp del: requests.simps add: numeral_3_eq_3)
qed

text \<open>
  Claim C2 as stated fails for calls that overlap. A tab goes to \<^verbatim>\<open>https://a.com/\<close>,
  then two requests for \<^verbatim>\<open>https://t.a.com/p.gif\<close> arrive before any answer of the
  network. The second call finds no stored decision, because the first has not
  finished: two evaluations of \<^verbatim>\<open>t.a.com\<close> are suspended at once, and two lookups of
  \<^verbatim>\<open>t.a.com\<close> have gone out. When the network then answers the first evaluation
  with the name server of the root and the second with another one, the first
  caller is told to allow and the second to block.
\<close>

theorem concurrent_requests_counterexample:
  "reachable example_hostname_of example_two_requests \<and>
   in_flight example_two_requests ''t.a.com'' = 2 \<and>
   count_list (fetches (fst example_two_requests)) (dns_url ''t.a.com'') = 2 \<and>
   fst (settle 1 (example_answer [''ns1.reg.com'']) (example_answer [''ns1.reg.com''])
          (Promise (AwaitDomain ''t.a.com'' ''a.com''), fst example_two_requests)) = False \<and>
   fst (settle 2 (example_answer [''ns9.other.net'']) (example_answer [''ns1.reg.com''])
          (Promise (AwaitDomain ''t.a.com'' ''a.com''),
           snd (settle 1 (example_answer [''ns1.reg.com'']) (example_answer [''ns1.reg.com''])
                  (Promise (AwaitDomain ''t.a.com'' ''a.com''), fst example_two_requests)))) = True"
proof (intro conjI)
  show "reachable example_hostname_of example_two_requests"
    by (rule example_two_requests_reachable)
next
  show "in_flight example_two_requests ''t.a.com'' = 2"
    by (simp add: in_flight_def example_two_requests_def)
next
  show "count_list (fetches (fst example_two_requests)) (dns_url ''t.a.com'') = 2"
    by (simp add: example_two_requests_def)
next
  show "fst (settle 1 (example_answer [''ns1.reg.com'']) (example_answer [''ns1.reg.com''])
          (Promise (AwaitDomain ''t.a.com'' ''a.com''), fst example_two_requests)) = False"
    by (simp add: example_two_requests_def compare_results_def foreign_zone_def)
next
  show "fst (settle 2 (example_answer [''ns9.other.net'']) (example_answer [''ns1.reg.com''])
          (Promise (AwaitDomain ''t.a.com'' ''a.com''),
           snd (settle 1 (example_answer [''ns1.reg.com'']) (example_answer [''ns1.reg.com''])
                  (Promise (AwaitDomain ''t.a.com'' ''a.com''), fst example_two_requests)))) = True"
    by (simp add: example_two_requests_def compare_results_def foreign_zone_def)
qed


end
